theory Spec2Isabelle
  imports Main
begin

section \<open>The task-identifier pattern\<close>

text \<open>
  \<^verbatim>\<open>sitecustomize.py\<close> compiles one regular expression,
  \<^verbatim>\<open>[0-9a-fA-F]{8}-[0-9a-fA-F]{4}-[0-9a-fA-F]{4}-[0-9a-fA-F]{4}-[0-9a-fA-F]{12}\<close>,
  and applies \<^verbatim>\<open>fullmatch\<close> to it. The fragment of the pattern language it uses is
  embedded as a datatype: a literal character, a character class given by its ranges, a
  counted repetition \<^verbatim>\<open>{n}\<close> and concatenation. Characters are compared by code
  point, as the \<^verbatim>\<open>re\<close> module does for a class without flags.
\<close>

datatype regex =
  Lit char
| In "(char \<times> char) list"
| Rep regex nat
| Seq regex regex

definition in_range :: "char \<Rightarrow> char \<times> char \<Rightarrow> bool" where
  "in_range c r = ((of_char (fst r) :: nat) \<le> of_char c \<and> (of_char c :: nat) \<le> of_char (snd r))"

definition in_class :: "(char \<times> char) list \<Rightarrow> char \<Rightarrow> bool" where
  "in_class rs c = list_ex (in_range c) rs"

text \<open>
  \<open>rmatch r s\<close> lists what is left of \<open>s\<close> after each way of matching \<open>r\<close> at its
  start, in the order a backtracking matcher tries them; \<open>fullmatch\<close> succeeds when one
  of them consumes the whole string.
\<close>

function rmatch :: "regex \<Rightarrow> string \<Rightarrow> string list" where
  "rmatch (Lit c) s = (case s of [] \<Rightarrow> [] | x # xs \<Rightarrow> if x = c then [xs] else [])"
| "rmatch (In rs) s = (case s of [] \<Rightarrow> [] | x # xs \<Rightarrow> if in_class rs x then [xs] else [])"
| "rmatch (Rep r 0) s = [s]"
| "rmatch (Rep r (Suc n)) s = concat (map (rmatch (Rep r n)) (rmatch r s))"
| "rmatch (Seq a b) s = concat (map (rmatch b) (rmatch a s))"
  by pat_completeness auto
termination
  by (relation "measures [\<lambda>(r, s). size r, \<lambda>(r, s). case r of Rep _ n \<Rightarrow> n | _ \<Rightarrow> 0]") auto

definition fullmatch :: "regex \<Rightarrow> string \<Rightarrow> bool" where
  "fullmatch r s = list_ex (\<lambda>rest. rest = []) (rmatch r s)"

definition hex_class :: regex where
  "hex_class = In [(CHR ''0'', CHR ''9''), (CHR ''a'', CHR ''f''), (CHR ''A'', CHR ''F'')]"

definition TASK_ID_PATTERN :: regex where
  "TASK_ID_PATTERN =
     Seq (Rep hex_class 8) (Seq (Lit CHR ''-'')
    (Seq (Rep hex_class 4) (Seq (Lit CHR ''-'')
    (Seq (Rep hex_class 4) (Seq (Lit CHR ''-'')
    (Seq (Rep hex_class 4) (Seq (Lit CHR ''-'')
         (Rep hex_class 12))))))))"


subsection \<open>The canonical textual form, in the specification's words\<close>

text \<open>
  The specification describes a task identifier as five groups of hexadecimal digits of
  lengths 8, 4, 4, 4 and 12, separated by single hyphens, upper and lower case both
  accepted. \<open>spec_uuid_form\<close> says exactly that, independently of the pattern: the string is
  cut at its hyphens and the groups are inspected.
\<close>

definition spec_hex_digit :: "char \<Rightarrow> bool" where
  "spec_hex_digit c = (c \<in> set ''0123456789abcdefABCDEF'')"

fun split_on :: "char \<Rightarrow> string \<Rightarrow> string list" where
  "split_on c [] = [[]]"
| "split_on c (x # xs) =
     (if x = c then [] # split_on c xs
      else (case split_on c xs of [] \<Rightarrow> [[x]] | g # gs \<Rightarrow> (x # g) # gs))"

definition spec_uuid_form :: "string \<Rightarrow> bool" where
  "spec_uuid_form s =
     (let groups = split_on CHR ''-'' s
      in map length groups = [8, 4, 4, 4, 12] \<and> list_all (list_all spec_hex_digit) groups)"

text \<open>Patterns of the same shape for any list of group lengths (used in the proofs).\<close>

fun hyphenated :: "nat list \<Rightarrow> regex" where
  "hyphenated [] = Rep hex_class 0"
| "hyphenated [n] = Rep hex_class n"
| "hyphenated (n # m # ms) = Seq (Rep hex_class n) (Seq (Lit CHR ''-'') (hyphenated (m # ms)))"

section \<open>Values, exceptions and the world of a call\<close>

text \<open>
  A Python value is a term of \<open>pyval\<close>: the builtin types, as plain data (a class of
  the host library deriving from \<^verbatim>\<open>str\<close> is outside the model). \<open>str\<close> is a list of
  characters. A character of the model is a byte, so a code point outside ASCII is several
  of them; no such byte is a hexadecimal digit or a hyphen, so the pattern decides the
  same strings either way.
\<close>

datatype pyval =
  PNone
| PBool bool
| PInt int
| PStr string
| PBytes string
| PList "pyval list"
| PTuple "pyval list"
| PDict "(pyval \<times> pyval) list"

text \<open>
  Exceptions, with the one distinction of the class hierarchy that the source depends on:
  \<^verbatim>\<open>KeyboardInterrupt\<close> and \<^verbatim>\<open>SystemExit\<close> derive from \<^verbatim>\<open>BaseException\<close> only, every
  other class here derives from \<^verbatim>\<open>Exception\<close>. \<open>LibraryError\<close> stands for any exception
  class of the host library, by name.
\<close>

datatype exn =
  TypeError
| AttributeError
| ImportError
| ModuleNotFoundError
| LibraryError string
| KeyboardInterrupt
| SystemExit

fun is_Exception :: "exn \<Rightarrow> bool" where
  "is_Exception KeyboardInterrupt = False"
| "is_Exception SystemExit = False"
| "is_Exception _ = True"

text \<open>
  Standard output is the text written so far. A callable takes its positional and keyword
  arguments and the world, and returns either the exception it raised or its value,
  together with the world it left. The world is an extensible record: whatever else a
  callable can change lives in the extension.
\<close>

record world =
  stdout :: string

type_synonym args = "pyval list \<times> (string \<times> pyval) list"

type_synonym 'a callable = "args \<Rightarrow> 'a world_scheme \<Rightarrow> (exn + pyval) \<times> 'a world_scheme"

text \<open>
  \<^verbatim>\<open>print(line, flush=True)\<close>: the line and a newline reach the stream at once. The
  stream is always writable.
\<close>

definition py_print :: "string \<Rightarrow> 'a world_scheme \<Rightarrow> 'a world_scheme" where
  "py_print line w = w\<lparr>stdout := stdout w @ line @ [CHR 0x0A]\<rparr>"

fun isinstance_str :: "pyval \<Rightarrow> bool" where
  "isinstance_str (PStr s) = True"
| "isinstance_str _ = False"

text \<open>
  \<^verbatim>\<open>pattern.fullmatch(v)\<close> on a value: a string pattern raises \<^verbatim>\<open>TypeError\<close> on
  anything that is not a \<^verbatim>\<open>str\<close>; on a \<^verbatim>\<open>str\<close> it returns a match object (here: the
  matched text, which is the whole string) or \<^verbatim>\<open>None\<close>.
\<close>

fun re_fullmatch :: "regex \<Rightarrow> pyval \<Rightarrow> exn + string option" where
  "re_fullmatch p (PStr s) = Inr (if fullmatch p s then Some s else None)"
| "re_fullmatch p _ = Inl TypeError"

section \<open>The return-value interceptor\<close>

text \<open>
  \<^verbatim>\<open>isinstance(result, str) and TASK_ID_PATTERN.fullmatch(result)\<close>: the right operand is
  evaluated only when the left one holds; a false left operand makes the condition falsy.
\<close>

definition task_id_match :: "pyval \<Rightarrow> exn + string option" where
  "task_id_match result =
     (if isinstance_str result then re_fullmatch TASK_ID_PATTERN result else Inr None)"

text \<open>
  \<^verbatim>\<open>
  def wrapper(*args, **kwargs):
      result = func(*args, **kwargs)
      if isinstance(result, str) and TASK_ID_PATTERN.fullmatch(result):
          print(f"docling_task_id={result}", flush=True)
      return result
  \<close>
  There is no handler around the call: an exception of \<open>func\<close> leaves \<open>wrapper\<close> at once.
  Where the condition holds, \<open>result\<close> is a \<^verbatim>\<open>str\<close> and the match spans all of it, so
  the text \<open>s\<close> of the match is the text the f-string puts after the tag.
\<close>

definition wrapper :: "'a callable \<Rightarrow> 'a callable" where
  "wrapper func args w =
     (case func args w of
        (Inl e, w1) \<Rightarrow> (Inl e, w1)
      | (Inr result, w1) \<Rightarrow>
          (case task_id_match result of
             Inl e \<Rightarrow> (Inl e, w1)
           | Inr None \<Rightarrow> (Inr result, w1)
           | Inr (Some s) \<Rightarrow> (Inr result, py_print (''docling_task_id='' @ s) w1)))"

definition wrap_task_id :: "'a callable \<Rightarrow> 'a callable" where
  "wrap_task_id func = wrapper func"

text \<open>What the wrapper itself wrote during a call: the output after what \<open>func\<close> left.\<close>

definition wrapper_output :: "'a callable \<Rightarrow> args \<Rightarrow> 'a world_scheme \<Rightarrow> string" where
  "wrapper_output func args w =
     drop (length (stdout (snd (func args w)))) (stdout (snd (wrapper func args w)))"

text \<open>
  To observe how the original is invoked, a world with a call log, and \<open>spy func\<close>, which
  is \<open>func\<close> followed by an entry in the log holding the arguments it was given.
\<close>

record spied = world +
  calls :: "args list"

definition spy :: "'b spied_ext callable \<Rightarrow> 'b spied_ext callable" where
  "spy func args w = (case func args w of (r, w1) \<Rightarrow> (r, w1\<lparr>calls := calls w1 @ [args]\<rparr>))"

text \<open>Two callables for concrete runs: one returns a fixed value, one raises.\<close>

definition returning :: "pyval \<Rightarrow> 'a callable" where
  "returning v args w = (Inr v, w)"

definition raising :: "exn \<Rightarrow> 'a callable" where
  "raising e args w = (Inl e, w)"

section \<open>The library patcher\<close>

text \<open>
  An attribute of a module is a callable or some other value. The interpreter state holds
  the namespace of every module object, by module name; everything else is in the
  record's extension.
\<close>

datatype 'a attr =
  Callable "'a callable"
| Data pyval

record 'a interp =
  mods :: "string \<Rightarrow> string \<rightharpoonup> 'a attr"

definition hasattr :: "('a, 'z) interp_scheme \<Rightarrow> string \<Rightarrow> string \<Rightarrow> bool" where
  "hasattr st m name = (mods st m name \<noteq> None)"

definition getattr :: "('a, 'z) interp_scheme \<Rightarrow> string \<Rightarrow> string \<Rightarrow> exn + 'a attr" where
  "getattr st m name = (case mods st m name of None \<Rightarrow> Inl AttributeError | Some a \<Rightarrow> Inr a)"

definition setattr ::
  "('a, 'z) interp_scheme \<Rightarrow> string \<Rightarrow> string \<Rightarrow> 'a attr \<Rightarrow> ('a, 'z) interp_scheme" where
  "setattr st m name a = st\<lparr>mods := (mods st)(m := (mods st m)(name \<mapsto> a))\<rparr>"

text \<open>
  The body of the loop, for one name:
  \<^verbatim>\<open>
  if hasattr(gradio_ui, name):
      original = getattr(gradio_ui, name)
      if callable(original):
          setattr(gradio_ui, name, _wrap_task_id(original))
  \<close>
\<close>

definition patch_name ::
  "string \<Rightarrow> string \<Rightarrow> ('a, 'z) interp_scheme \<Rightarrow> (exn + unit) \<times> ('a, 'z) interp_scheme" where
  "patch_name gradio_ui name st =
     (if hasattr st gradio_ui name then
        (case getattr st gradio_ui name of
           Inl e \<Rightarrow> (Inl e, st)
         | Inr original \<Rightarrow>
             (case original of
                Callable func \<Rightarrow> (Inr (), setattr st gradio_ui name (Callable (wrap_task_id func)))
              | Data v \<Rightarrow> (Inr (), st)))
      else (Inr (), st))"

fun patch_names ::
  "string \<Rightarrow> string list \<Rightarrow> ('a, 'z) interp_scheme \<Rightarrow> (exn + unit) \<times> ('a, 'z) interp_scheme" where
  "patch_names gradio_ui [] st = (Inr (), st)"
| "patch_names gradio_ui (name # names) st =
     (case patch_name gradio_ui name st of
        (Inl e, st') \<Rightarrow> (Inl e, st')
      | (Inr u, st') \<Rightarrow> patch_names gradio_ui names st')"

text \<open>
  \<^verbatim>\<open>from docling_serve import gradio_ui\<close> runs code of the host library, which is not
  part of this program: the import is a parameter \<open>imp\<close>, which raises or returns the
  module it bound, and leaves a state of its own making. \<^verbatim>\<open>except Exception: return\<close>
  handles the classes deriving from \<^verbatim>\<open>Exception\<close> and no other.
\<close>

type_synonym ('a, 'z) importer =
  "('a, 'z) interp_scheme \<Rightarrow> (exn + string) \<times> ('a, 'z) interp_scheme"

definition patch_gradio_ui ::
  "('a, 'z) importer \<Rightarrow> ('a, 'z) interp_scheme \<Rightarrow> (exn + unit) \<times> ('a, 'z) interp_scheme" where
  "patch_gradio_ui imp st =
     (case imp st of
        (Inl e, st1) \<Rightarrow> if is_Exception e then (Inr (), st1) else (Inl e, st1)
      | (Inr gradio_ui, st1) \<Rightarrow> patch_names gradio_ui [''process_url'', ''process_file''] st1)"

text \<open>Imports and states for concrete runs.\<close>

definition import_raises :: "exn \<Rightarrow> ('a, 'z) importer" where
  "import_raises e st = (Inl e, st)"

definition import_finds :: "string \<Rightarrow> ('a, 'z) importer" where
  "import_finds m st = (Inr m, st)"

definition host_process_url :: "unit callable" where
  "host_process_url = returning (PStr ''3fa85f64-5717-4562-b3fc-2c963f66afa6'')"

definition host_state :: "unit interp" where
  "host_state =
     \<lparr>mods = (\<lambda>m. Map.empty)(''docling_serve.gradio_ui'' :=
        [''process_url'' \<mapsto> Callable host_process_url,
         ''process_file'' \<mapsto> Data (PInt 7),
         ''launch'' \<mapsto> Data PNone])\<rparr>"

section \<open>The pattern accepts exactly the canonical form\<close>

lemma TASK_ID_PATTERN_hyphenated: "TASK_ID_PATTERN = hyphenated [8, 4, 4, 4, 12]"
  by (simp add: TASK_ID_PATTERN_def)

lemma hex_class_iff:
  "in_class [(CHR ''0'', CHR ''9''), (CHR ''a'', CHR ''f''), (CHR ''A'', CHR ''F'')] c
     = spec_hex_digit c"
  by (cases c) (simp add: in_class_def in_range_def spec_hex_digit_def)

lemma hex_digit_not_hyphen: "spec_hex_digit c \<Longrightarrow> c \<noteq> CHR ''-''"
  by (auto simp: spec_hex_digit_def)

lemma rmatch_Rep_hex:
  "rmatch (Rep hex_class n) s =
     (if n \<le> length s \<and> list_all spec_hex_digit (take n s) then [drop n s] else [])"
proof (induction n arbitrary: s)
  case 0
  show ?case by simp
next
  case (Suc n)
  show ?case
  proof (cases s)
    case Nil
    then show ?thesis by (simp add: hex_class_def)
  next
    case (Cons x xs)
    have "rmatch hex_class s = (if spec_hex_digit x then [xs] else [])"
      by (simp add: hex_class_def Cons hex_class_iff)
    then show ?thesis using Suc [of xs] Cons by (cases "spec_hex_digit x") simp_all
  qed
qed

lemma fullmatch_Seq: "fullmatch (Seq a b) s = list_ex (fullmatch b) (rmatch a s)"
  by (induction "rmatch a s" arbitrary: s) (simp_all add: fullmatch_def list_ex_iff)

lemma split_on_not_Nil: "split_on c s \<noteq> []"
  by (induction s) (auto split: list.splits)

lemma split_on_no_sep: "c \<notin> set g \<Longrightarrow> split_on c g = [g]"
  by (induction g) auto

lemma split_on_append_sep: "c \<notin> set g \<Longrightarrow> split_on c (g @ c # rest) = g # split_on c rest"
  by (induction g) (auto simp: split_on_not_Nil split: list.splits)

lemma split_on_Cons:
  "split_on c s = g # gs \<Longrightarrow>
     c \<notin> set g \<and> (if gs = [] then s = g else (\<exists>rest. s = g @ c # rest \<and> split_on c rest = gs))"
proof (induction s arbitrary: g gs)
  case Nil
  then show ?case by simp
next
  case (Cons x xs)
  show ?case
  proof (cases "x = c")
    case True
    with Cons.prems show ?thesis by (auto simp: split_on_not_Nil)
  next
    case False
    with Cons.prems obtain g' where g': "split_on c xs = g' # gs" "g = x # g'"
      by (auto split: list.splits simp: split_on_not_Nil)
    from Cons.IH [OF g'(1)] g'(2) False show ?thesis by auto
  qed
qed

lemma fullmatch_hyphenated:
  "ns \<noteq> [] \<Longrightarrow>
   fullmatch (hyphenated ns) s =
     (map length (split_on CHR ''-'' s) = ns \<and> list_all (list_all spec_hex_digit) (split_on CHR ''-'' s))"
proof (induction ns arbitrary: s rule: hyphenated.induct)
  case 1
  then show ?case by simp
next
  case (2 n)
  show ?case
  proof
    assume "fullmatch (hyphenated [n]) s"
    then have s: "length s = n" "list_all spec_hex_digit s"
      by (auto simp: fullmatch_def rmatch_Rep_hex split: if_splits)
    then have "CHR ''-'' \<notin> set s"
      using hex_digit_not_hyphen by (auto simp: list_all_iff)
    then have "split_on CHR ''-'' s = [s]" by (rule split_on_no_sep)
    with s show "map length (split_on CHR ''-'' s) = [n] \<and> list_all (list_all spec_hex_digit) (split_on CHR ''-'' s)"
      by simp
  next
    assume a: "map length (split_on CHR ''-'' s) = [n] \<and> list_all (list_all spec_hex_digit) (split_on CHR ''-'' s)"
    then obtain g where g: "split_on CHR ''-'' s = [g]" by (cases "split_on CHR ''-'' s") auto
    from split_on_Cons [OF g] have "s = g" by simp
    with a g show "fullmatch (hyphenated [n]) s"
      by (simp add: fullmatch_def rmatch_Rep_hex)
  qed
next
  case (3 n m ms)
  have IH: "\<And>t. fullmatch (hyphenated (m # ms)) t =
     (map length (split_on CHR ''-'' t) = m # ms \<and> list_all (list_all spec_hex_digit) (split_on CHR ''-'' t))"
    using 3 by simp
  have unfold: "fullmatch (hyphenated (n # m # ms)) s =
     (n \<le> length s \<and> list_all spec_hex_digit (take n s) \<and>
      (\<exists>t. drop n s = CHR ''-'' # t \<and> fullmatch (hyphenated (m # ms)) t))"
    by (cases "drop n s") (auto simp: fullmatch_Seq rmatch_Rep_hex)
  show ?case
  proof
    assume "fullmatch (hyphenated (n # m # ms)) s"
    then obtain t where t: "n \<le> length s" "list_all spec_hex_digit (take n s)"
        "drop n s = CHR ''-'' # t" "fullmatch (hyphenated (m # ms)) t"
      using unfold by auto
    have "CHR ''-'' \<notin> set (take n s)"
      using t(2) hex_digit_not_hyphen by (auto simp: list_all_iff)
    moreover have "s = take n s @ CHR ''-'' # t"
      using t(3) by (metis append_take_drop_id)
    ultimately have "split_on CHR ''-'' s = take n s # split_on CHR ''-'' t"
      using split_on_append_sep by metis
    with t IH [of t]
    show "map length (split_on CHR ''-'' s) = n # m # ms \<and> list_all (list_all spec_hex_digit) (split_on CHR ''-'' s)"
      by simp
  next
    assume a: "map length (split_on CHR ''-'' s) = n # m # ms \<and> list_all (list_all spec_hex_digit) (split_on CHR ''-'' s)"
    then obtain g gs where g: "split_on CHR ''-'' s = g # gs" "gs \<noteq> []"
      by (cases "split_on CHR ''-'' s") auto
    from split_on_Cons [OF g(1)] g(2) obtain t where t: "s = g @ CHR ''-'' # t" "split_on CHR ''-'' t = gs"
      by auto
    from a g have "length g = n" "list_all spec_hex_digit g" by auto
    moreover from a g t IH [of t] have "fullmatch (hyphenated (m # ms)) t" by simp
    ultimately show "fullmatch (hyphenated (n # m # ms)) s"
      using t(1) unfold by simp
  qed
qed

text \<open>
  Claim C6. For every string \<open>s\<close>: \<open>s\<close> fully matches the task-identifier pattern if and
  only if \<open>s\<close> consists of five groups of hexadecimal digits of lengths 8, 4, 4, 4 and 12,
  separated by single hyphens, upper-case and lower-case digits both accepted.
\<close>

theorem TASK_ID_PATTERN_uuid_form: "fullmatch TASK_ID_PATTERN s = spec_uuid_form s"
  by (simp add: TASK_ID_PATTERN_hyphenated fullmatch_hyphenated spec_uuid_form_def Let_def
        del: hyphenated.simps)

lemma example_id_matches: "fullmatch TASK_ID_PATTERN ''3fa85f64-5717-4562-b3fc-2c963f66afa6''"
  by code_simp

theorem TASK_ID_PATTERN_uuid_form_witness:
  "spec_uuid_form ''3fa85f64-5717-4562-b3fc-2c963f66afa6'' \<and>
   fullmatch TASK_ID_PATTERN ''3FA85F64-5717-4562-B3FC-2C963F66AFA6'' \<and>
   \<not> fullmatch TASK_ID_PATTERN ''3fa85f64-5717-4562-b3fc-2c963f66afa6-''"
proof -
  have "spec_uuid_form ''3FA85F64-5717-4562-B3FC-2C963F66AFA6''"
    by (simp add: spec_uuid_form_def spec_hex_digit_def)
  moreover have "\<not> spec_uuid_form ''3fa85f64-5717-4562-b3fc-2c963f66afa6-''"
    by (simp add: spec_uuid_form_def)
  ultimately show ?thesis
    using example_id_matches
      TASK_ID_PATTERN_uuid_form [of "''3fa85f64-5717-4562-b3fc-2c963f66afa6''"]
      TASK_ID_PATTERN_uuid_form [of "''3FA85F64-5717-4562-B3FC-2C963F66AFA6''"]
      TASK_ID_PATTERN_uuid_form [of "''3fa85f64-5717-4562-b3fc-2c963f66afa6-''"]
    by simp
qed

section \<open>The interceptor\<close>

lemma task_id_match_eq:
  "task_id_match v =
     Inr (case v of PStr s \<Rightarrow> if fullmatch TASK_ID_PATTERN s then Some s else None | _ \<Rightarrow> None)"
  by (cases v) (simp_all add: task_id_match_def)

lemma wrapper_returned:
  "func args w = (Inr v, w1) \<Longrightarrow>
   wrapper func args w =
     (Inr v, case v of
               PStr s \<Rightarrow> if fullmatch TASK_ID_PATTERN s
                         then py_print (''docling_task_id='' @ s) w1 else w1
             | _ \<Rightarrow> w1)"
  by (cases v) (simp_all add: wrapper_def task_id_match_eq)

lemma wrapper_raised: "func args w = (Inl e, w1) \<Longrightarrow> wrapper func args w = (Inl e, w1)"
  by (simp add: wrapper_def)

lemma fst_wrapper: "fst (wrapper func args w) = fst (func args w)"
proof (cases "func args w")
  case (Pair r w1)
  then show ?thesis
    by (cases r) (simp_all add: wrapper_raised wrapper_returned)
qed

text \<open>
  Without the type test the match itself would raise on a value that is not a string.
\<close>

lemma unguarded_fullmatch_raises: "re_fullmatch TASK_ID_PATTERN PNone = Inl TypeError"
  by simp

text \<open>
  Claim C1. For every wrapped callable and every call of its wrapper, a line of the exact
  form \<^verbatim>\<open>docling_task_id=<result>\<close> is written to standard output if and only if the
  callable's return value is a string that fully matches the pattern; for a value that is
  not a string, and for a string that does not fully match, nothing is written. Standard
  output after the call is what the callable left, followed by that line or by nothing.
\<close>

theorem wrapper_emits_iff_task_id:
  assumes "func args w = (Inr v, w1)"
  shows "stdout (snd (wrapper func args w)) =
           stdout w1 @
             (case v of
                PStr s \<Rightarrow> if fullmatch TASK_ID_PATTERN s
                          then ''docling_task_id='' @ s @ [CHR 0x0A] else []
              | _ \<Rightarrow> [])"
  using assms by (cases v) (simp_all add: wrapper_def task_id_match_eq py_print_def)

theorem wrapper_emits_iff_task_id_witness:
  "stdout (snd (wrapper (returning (PStr ''3fa85f64-5717-4562-b3fc-2c963f66afa6'')) ([], [])
                  \<lparr>stdout = ''ready'' @ [CHR 0x0A]\<rparr>)) =
     ''ready'' @ [CHR 0x0A] @ ''docling_task_id=3fa85f64-5717-4562-b3fc-2c963f66afa6'' @ [CHR 0x0A]
   \<and> stdout (snd (wrapper (returning (PStr ''not-a-uuid'')) ([], []) \<lparr>stdout = ''ready''\<rparr>)) = ''ready''
   \<and> stdout (snd (wrapper (returning PNone) ([], []) \<lparr>stdout = ''ready''\<rparr>)) = ''ready''"
proof -
  have a: "returning (PStr ''3fa85f64-5717-4562-b3fc-2c963f66afa6'') ([], []) \<lparr>stdout = ''ready'' @ [CHR 0x0A]\<rparr>
             = (Inr (PStr ''3fa85f64-5717-4562-b3fc-2c963f66afa6''), \<lparr>stdout = ''ready'' @ [CHR 0x0A]\<rparr>)"
    by (simp add: returning_def)
  have b: "returning (PStr ''not-a-uuid'') ([], []) \<lparr>stdout = ''ready''\<rparr>
             = (Inr (PStr ''not-a-uuid''), \<lparr>stdout = ''ready''\<rparr>)"
    by (simp add: returning_def)
  have c: "returning PNone ([], []) \<lparr>stdout = ''ready''\<rparr> = (Inr PNone, \<lparr>stdout = ''ready''\<rparr>)"
    by (simp add: returning_def)
  have n: "\<not> fullmatch TASK_ID_PATTERN ''not-a-uuid''"
    by code_simp
  show ?thesis
    using
      wrapper_emits_iff_task_id [of "returning (PStr ''3fa85f64-5717-4562-b3fc-2c963f66afa6'')" "([], [])", OF a]
      wrapper_emits_iff_task_id [of "returning (PStr ''not-a-uuid'')" "([], [])", OF b]
      wrapper_emits_iff_task_id [of "returning PNone" "([], [])", OF c]
      example_id_matches n
    by simp
qed

text \<open>
  Claim C2. For every wrapped callable and every argument list, the wrapper invokes the
  original with exactly the arguments it received, and returns the original's outcome
  unchanged, whether or not the pattern matched. The second conjunct reads the call log of
  a spied callable: the wrapper adds one entry, holding the arguments the wrapper got.
\<close>

theorem wrapper_forwards_call:
  "fst (wrapper func args w) = fst (func args w) \<and>
   calls (snd (wrapper (spy g) args' w')) = calls (snd (g args' w')) @ [args']"
proof
  show "fst (wrapper func args w) = fst (func args w)" by (rule fst_wrapper)
next
  obtain r w1 where g: "g args' w' = (r, w1)" by (cases "g args' w'")
  then have s: "spy g args' w' = (r, w1\<lparr>calls := calls w1 @ [args']\<rparr>)"
    by (simp add: spy_def)
  show "calls (snd (wrapper (spy g) args' w')) = calls (snd (g args' w')) @ [args']"
  proof (cases r)
    case (Inl e)
    with s g show ?thesis by (simp add: wrapper_raised)
  next
    case (Inr v)
    with s g show ?thesis
      by (cases v) (simp_all add: wrapper_returned py_print_def)
  qed
qed

theorem wrapper_forwards_call_witness:
  "fst (wrapper host_process_url ([PStr ''a.pdf''], [(''ocr'', PBool True)]) \<lparr>stdout = []\<rparr>)
     = Inr (PStr ''3fa85f64-5717-4562-b3fc-2c963f66afa6'') \<and>
   calls (snd (wrapper (spy (returning (PInt 0))) ([PStr ''a.pdf''], [(''ocr'', PBool True)])
                 \<lparr>stdout = [], calls = []\<rparr>))
     = [([PStr ''a.pdf''], [(''ocr'', PBool True)])]"
  using wrapper_forwards_call
    [of host_process_url "([PStr ''a.pdf''], [(''ocr'', PBool True)])" "\<lparr>stdout = []\<rparr>"
        "returning (PInt 0)" "([PStr ''a.pdf''], [(''ocr'', PBool True)])"
        "\<lparr>stdout = [], calls = []\<rparr>"]
  by (simp add: host_process_url_def returning_def)

text \<open>
  Claim C3. For every wrapped callable and every call on which the original raises, the
  wrapper raises the same exception and writes nothing: the world is the one the original
  left.
\<close>

theorem wrapper_propagates_exception:
  "func args w = (Inl e, w1) \<Longrightarrow> wrapper func args w = (Inl e, w1)"
  by (simp add: wrapper_def)

theorem wrapper_propagates_exception_witness:
  "wrapper (raising (LibraryError ''conversion failed'')) ([PStr ''http://x''], []) \<lparr>stdout = ''log''\<rparr>
     = (Inl (LibraryError ''conversion failed''), \<lparr>stdout = ''log''\<rparr>)"
proof -
  have "raising (LibraryError ''conversion failed'') ([PStr ''http://x''], []) \<lparr>stdout = ''log''\<rparr>
          = (Inl (LibraryError ''conversion failed''), \<lparr>stdout = ''log''\<rparr>)"
    by (simp add: raising_def)
  then show ?thesis
    by (rule wrapper_propagates_exception [of "raising (LibraryError ''conversion failed'')"])
qed

text \<open>
  Claim C7. Wrapping a callable twice gives a callable that still returns the original's
  outcome unchanged, and in which each layer matches on its own: a fully matching string
  result puts the tagged line on standard output once per layer, any other result puts
  nothing there.
\<close>

theorem double_wrap_emits_per_layer:
  "fst (wrap_task_id (wrap_task_id func) args w) = fst (func args w) \<and>
   (func args w = (Inr v, w1) \<longrightarrow>
      stdout (snd (wrap_task_id (wrap_task_id func) args w)) =
        stdout w1 @
          (case v of
             PStr s \<Rightarrow> if fullmatch TASK_ID_PATTERN s
                       then ''docling_task_id='' @ s @ [CHR 0x0A] @
                            ''docling_task_id='' @ s @ [CHR 0x0A]
                       else []
           | _ \<Rightarrow> []))"
proof (intro conjI impI)
  show "fst (wrap_task_id (wrap_task_id func) args w) = fst (func args w)"
    by (simp add: wrap_task_id_def fst_wrapper)
next
  assume f: "func args w = (Inr v, w1)"
  note inner = wrapper_returned [of func args w, OF f]
  note outer = wrapper_returned [of "wrapper func" args w, OF inner]
  show "stdout (snd (wrap_task_id (wrap_task_id func) args w)) =
        stdout w1 @
          (case v of
             PStr s \<Rightarrow> if fullmatch TASK_ID_PATTERN s
                       then ''docling_task_id='' @ s @ [CHR 0x0A] @
                            ''docling_task_id='' @ s @ [CHR 0x0A]
                       else []
           | _ \<Rightarrow> [])"
    unfolding wrap_task_id_def outer
    by (cases v) (simp_all add: py_print_def)
qed

theorem double_wrap_emits_per_layer_witness:
  "fst (wrap_task_id (wrap_task_id host_process_url) ([], []) \<lparr>stdout = []\<rparr>)
     = Inr (PStr ''3fa85f64-5717-4562-b3fc-2c963f66afa6'')
   \<and> stdout (snd (wrap_task_id (wrap_task_id host_process_url) ([], []) \<lparr>stdout = []\<rparr>))
     = ''docling_task_id=3fa85f64-5717-4562-b3fc-2c963f66afa6'' @ [CHR 0x0A] @
       ''docling_task_id=3fa85f64-5717-4562-b3fc-2c963f66afa6'' @ [CHR 0x0A]"
proof -
  have h: "host_process_url ([], []) \<lparr>stdout = []\<rparr>
             = (Inr (PStr ''3fa85f64-5717-4562-b3fc-2c963f66afa6''), \<lparr>stdout = []\<rparr>)"
    by (simp add: host_process_url_def returning_def)
  show ?thesis
    using double_wrap_emits_per_layer
      [of host_process_url "([], [])" "\<lparr>stdout = []\<rparr>"
          "PStr ''3fa85f64-5717-4562-b3fc-2c963f66afa6''" "\<lparr>stdout = []\<rparr>"]
      h example_id_matches
    by simp
qed

text \<open>
  Claim C9. What the wrapper writes is determined by the original's outcome alone: for any
  two calls, with whatever arguments and in whatever worlds, in which the originals have
  equal outcomes, the wrapper writes the same text (the same tagged line, or nothing).
\<close>

theorem wrapper_output_depends_on_result_only:
  assumes "fst (func args w) = fst (func' args' w')"
  shows "wrapper_output func args w = wrapper_output func' args' w'"
proof -
  obtain r w1 where a: "func args w = (r, w1)" by (cases "func args w")
  obtain w1' where b: "func' args' w' = (r, w1')" using assms a by (cases "func' args' w'") simp
  show ?thesis
  proof (cases r)
    case (Inl e)
    with a b show ?thesis by (simp add: wrapper_output_def wrapper_raised)
  next
    case (Inr v)
    with a b show ?thesis
      by (cases v) (simp_all add: wrapper_output_def wrapper_returned py_print_def)
  qed
qed

theorem wrapper_output_depends_on_result_only_witness:
  "wrapper_output host_process_url ([PStr ''a.pdf''], []) \<lparr>stdout = ''one''\<rparr>
     = wrapper_output host_process_url ([PStr ''b.pdf'', PBool True], [(''ocr'', PBool False)]) \<lparr>stdout = []\<rparr>"
proof -
  have "fst (host_process_url ([PStr ''a.pdf''], []) \<lparr>stdout = ''one''\<rparr>)
          = fst (host_process_url ([PStr ''b.pdf'', PBool True], [(''ocr'', PBool False)]) \<lparr>stdout = []\<rparr>)"
    by (simp add: host_process_url_def returning_def)
  then show ?thesis
    by (rule wrapper_output_depends_on_result_only [of host_process_url _ _ host_process_url])
qed



section \<open>The patcher\<close>

lemma patch_name_returns: "fst (patch_name m name st) = Inr ()"
  by (simp add: patch_name_def hasattr_def getattr_def split: option.splits attr.splits)

lemma patch_name_more: "interp.more (snd (patch_name m name st)) = interp.more st"
  by (simp add: patch_name_def hasattr_def getattr_def setattr_def split: option.splits attr.splits)

lemma patch_name_frame:
  "m' \<noteq> m \<or> name' \<noteq> name \<Longrightarrow> mods (snd (patch_name m name st)) m' name' = mods st m' name'"
  by (auto simp: patch_name_def hasattr_def getattr_def setattr_def split: option.splits attr.splits)



lemma patch_names_more: "interp.more (snd (patch_names m names st)) = interp.more st"
proof (induction names arbitrary: st)
  case Nil
  show ?case by simp
next
  case (Cons n names)
  obtain r st' where p: "patch_name m n st = (r, st')" by (cases "patch_name m n st")
  with patch_name_returns [of m n st] patch_name_more [of m n st]
  have "r = Inr ()" "interp.more st' = interp.more st" by simp_all
  with p Cons [of st'] show ?case by simp
qed

lemma patch_names_frame:
  "m' \<noteq> m \<or> name' \<notin> set names \<Longrightarrow>
   mods (snd (patch_names m names st)) m' name' = mods st m' name'"
proof (induction names arbitrary: st)
  case Nil
  show ?case by simp
next
  case (Cons n names)
  obtain r st' where p: "patch_name m n st = (r, st')" by (cases "patch_name m n st")
  from Cons.prems have "m' \<noteq> m \<or> name' \<noteq> n" by auto
  with patch_name_returns [of m n st] patch_name_frame [of m' m name' n st] p
  have "r = Inr ()" "mods st' m' name' = mods st m' name'" by simp_all
  moreover from Cons.prems have "m' \<noteq> m \<or> name' \<notin> set names" by auto
  ultimately show ?case using p Cons.IH [of st'] by simp
qed


text \<open>
  Claim C4, amended. If importing the target module fails with an exception deriving from
  \<^verbatim>\<open>Exception\<close>, the patch procedure returns normally and sets no attribute of any
  module: the state is the one the import left. A failure with any other exception
  (\<^verbatim>\<open>KeyboardInterrupt\<close>, \<^verbatim>\<open>SystemExit\<close>) is raised to the caller, the state again the
  one the import left.
\<close>

theorem import_failure_suppressed_for_Exception:
  "imp st = (Inl e, st1) \<Longrightarrow>
   patch_gradio_ui imp st = (if is_Exception e then Inr () else Inl e, st1)"
  by (simp add: patch_gradio_ui_def)

theorem import_failure_suppressed_for_Exception_witness:
  "patch_gradio_ui (import_raises ModuleNotFoundError) host_state = (Inr (), host_state)"
proof -
  have "import_raises ModuleNotFoundError host_state = (Inl ModuleNotFoundError, host_state)"
    by (simp add: import_raises_def)
  from import_failure_suppressed_for_Exception [of "import_raises ModuleNotFoundError", OF this]
  show ?thesis by simp
qed

text \<open>
  As first stated, C4 promised a normal return whatever makes the import fail. An import
  interrupted from the keyboard fails, and the patch procedure raises.
\<close>

theorem import_interrupt_not_suppressed:
  "fst (import_raises KeyboardInterrupt host_state) = Inl KeyboardInterrupt \<and>
   fst (patch_gradio_ui (import_raises KeyboardInterrupt) host_state) = Inl KeyboardInterrupt"
  by (simp add: patch_gradio_ui_def import_raises_def)




text \<open>
  Claim C8. The patch procedure changes at most the attributes \<^verbatim>\<open>process_url\<close> and
  \<^verbatim>\<open>process_file\<close> of the imported module: in the state the import left, every other
  attribute of that module, every attribute of every other module and everything outside
  the modules stay as they were.
\<close>

theorem patch_changes_only_two_names:
  assumes "imp st = (r, st1)"
  shows "interp.more (snd (patch_gradio_ui imp st)) = interp.more st1 \<and>
         (r \<noteq> Inr m \<or> name \<notin> set [''process_url'', ''process_file''] \<longrightarrow>
            mods (snd (patch_gradio_ui imp st)) m name = mods st1 m name)"
proof (cases r)
  case (Inl e)
  with assms show ?thesis by (simp add: patch_gradio_ui_def)
next
  case (Inr g)
  with assms have p: "patch_gradio_ui imp st = patch_names g [''process_url'', ''process_file''] st1"
    by (simp add: patch_gradio_ui_def)
  have a: "interp.more (snd (patch_names g [''process_url'', ''process_file''] st1)) = interp.more st1"
    by (rule patch_names_more)
  have b: "m \<noteq> g \<or> name \<notin> set [''process_url'', ''process_file''] \<Longrightarrow>
           mods (snd (patch_names g [''process_url'', ''process_file''] st1)) m name = mods st1 m name"
    by (rule patch_names_frame)
  show ?thesis
    unfolding p using Inr a b by blast
qed

theorem patch_changes_only_two_names_witness:
  "mods (snd (patch_gradio_ui (import_finds ''docling_serve.gradio_ui'') host_state))
        ''docling_serve.gradio_ui'' ''launch'' = Some (Data PNone) \<and>
   mods (snd (patch_gradio_ui (import_finds ''docling_serve.gradio_ui'') host_state))
        ''docling_serve.app'' ''process_url'' = None"
proof -
  have i: "import_finds ''docling_serve.gradio_ui'' host_state
             = (Inr ''docling_serve.gradio_ui'', host_state)"
    by (simp add: import_finds_def)
  from patch_changes_only_two_names
         [of "import_finds ''docling_serve.gradio_ui''", OF i,
          of "''docling_serve.gradio_ui''" "''launch''"]
       patch_changes_only_two_names
         [of "import_finds ''docling_serve.gradio_ui''", OF i,
          of "''docling_serve.app''" "''process_url''"]
  show ?thesis by (simp add: host_state_def)
qed

text \<open>A callable attribute, for comparison, is replaced by its wrapping.\<close>

lemma patch_wraps_callable:
  "mods (snd (patch_gradio_ui (import_finds ''docling_serve.gradio_ui'') host_state))
        ''docling_serve.gradio_ui'' ''process_url'' = Some (Callable (wrap_task_id host_process_url))"
  by (simp add: patch_gradio_ui_def import_finds_def host_state_def patch_name_def hasattr_def
        getattr_def setattr_def)

end
